theory Spec2Isabelle
  imports Main "HOL-Library.Word"
begin

unbundle bit_operations_syntax

section \<open>Data model (flash.hpp, flash_sim.hpp)\<close>

text \<open>\<^verbatim>\<open>flash::user_operation\<close> and \<^verbatim>\<open>flash::pin_state\<close>.\<close>

datatype user_operation =
  ToggleChipEnable | ToggleSerialInput | ToggleClock | WaitForWriteComplete

datatype pin_state = High | Low

text \<open>\<^verbatim>\<open>flash_sim::chip_state\<close>.\<close>

datatype chip_state = Deselected | Command | Operation

text \<open>
  The exceptions of the source, one constructor per kind of failure:
  \<^item> \<open>InvalidTransition\<close>: the \<^verbatim>\<open>std::runtime_error\<close>s of the chip state machine
    ("Cannot toggle chip enable while chip is in command state.", "Cannot toggle serial
    input while chip is deselected." (thrown by \<^verbatim>\<open>toggle_serial_input\<close> and by
    \<^verbatim>\<open>toggle_clock\<close>), "Cannot toggle serial input twice in a row.");
  \<^item> \<open>NoOperation\<close>: \<^verbatim>\<open>std::logic_error\<close> "In operation state without an operation.";
  \<^item> \<open>UnknownOpcode\<close>: \<^verbatim>\<open>std::out_of_range\<close> of \<^verbatim>\<open>_operation_map.at\<close>;
  \<^item> \<open>AddressIncomplete\<close>: "Cannot toggle chip enable while command is reading address.";
  \<^item> \<open>AddressNotReady\<close>: "Requested address, but address is not ready yet.";
  \<^item> \<open>WriteEnableRequired\<close>: "Cannot chip erase without write enabled." (thrown by the
    constructors of \<^verbatim>\<open>write_operation\<close> and of \<^verbatim>\<open>chip_erase_operation\<close>);
  \<^item> \<open>BufferFull\<close>: "Write buffer is full.";
  \<^item> \<open>DataOutOfRange\<close>: \<^verbatim>\<open>std::out_of_range\<close> of \<^verbatim>\<open>_flash._data.at\<close>;
  \<^item> \<open>NonErasedByteWrite\<close>: "Writing a non-erased byte.";
  \<^item> \<open>AlreadyWriteEnabled\<close>: "Cannot write enable when already write enabled.";
  \<^item> \<open>ClockNotApplicable\<close>: "Write enable does not require clock toggling." and
    "Chip erase does not require clock toggling.";
  \<^item> \<open>InvalidArgument\<close>: \<^verbatim>\<open>std::invalid_argument\<close> of the token encoding.
\<close>

datatype error =
  InvalidTransition | NoOperation | UnknownOpcode | AddressIncomplete | AddressNotReady
  | WriteEnableRequired | BufferFull | DataOutOfRange | NonErasedByteWrite
  | AlreadyWriteEnabled | ClockNotApplicable | InvalidArgument

text \<open>
  The result of a call on an object: it returns, leaving the object in a new state; or it
  throws, and the object keeps whatever the call had changed before the throw; or the call
  has undefined behaviour in C++ (a shift by at least the width of the operand, \<^verbatim>\<open>back()\<close>
  of an empty vector, \<^verbatim>\<open>std::copy\<close> past the end of the destination), after which
  nothing is known.
\<close>

datatype 'a outcome = Returned 'a | Threw error 'a | Undefined

text \<open>
  \<^verbatim>\<open>operation_with_address\<close>: the members \<^verbatim>\<open>_address\<close> and \<^verbatim>\<open>_bit_index\<close>.
  \<^verbatim>\<open>write_operation\<close> adds \<^verbatim>\<open>_write_buffer\<close>, the iterator \<^verbatim>\<open>_current_byte\<close> (here its
  distance from \<^verbatim>\<open>begin\<close>) and a \<^verbatim>\<open>_bit_index\<close> of its own, which hides the inherited one.
\<close>

record operation_with_address =
  address_bits :: "32 word"
  address_bit_index :: "8 word"

record write_state =
  write_buffer :: "8 word list"
  current_byte :: nat
  write_bit_index :: "8 word"

text \<open>The four classes derived from \<^verbatim>\<open>flash_sim::operation\<close>.\<close>

datatype operation =
  WriteOperation operation_with_address write_state
  | ReadOperation operation_with_address
  | WriteEnableOperation
  | ChipEraseOperation

text \<open>The members of \<^verbatim>\<open>flash_sim\<close>, in the order of their declaration.\<close>

record flash_sim =
  chip_enable :: pin_state
  serial_input :: pin_state
  serial_output :: pin_state
  chip_state :: chip_state
  write_enabled :: bool
  bit_index :: "8 word"
  instruction_register :: "8 word"
  operation :: "operation option"
  data :: "8 word list"
  user_operations :: "user_operation list"

section \<open>The token encoding (flash.cpp)\<close>

text \<open>
  \<^verbatim>\<open>flash::user_operation_to_char\<close>. Its \<^verbatim>\<open>default\<close> branch throws for a value that is none
  of the four enumerators; the datatype has no such value.
\<close>

fun user_operation_to_char :: "user_operation \<Rightarrow> char" where
  "user_operation_to_char ToggleChipEnable = CHR ''e''"
| "user_operation_to_char ToggleSerialInput = CHR ''i''"
| "user_operation_to_char ToggleClock = CHR ''c''"
| "user_operation_to_char WaitForWriteComplete = CHR ''w''"

text \<open>\<^verbatim>\<open>flash::char_to_user_operation\<close>.\<close>

definition char_to_user_operation :: "char \<Rightarrow> error + user_operation" where
  "char_to_user_operation c =
     (if c = CHR ''e'' then Inr ToggleChipEnable
      else if c = CHR ''i'' then Inr ToggleSerialInput
      else if c = CHR ''c'' then Inr ToggleClock
      else if c = CHR ''w'' then Inr WaitForWriteComplete
      else Inl InvalidArgument)"

section \<open>The simulated chip (flash_sim.cpp)\<close>

text \<open>
  The constructor \<^verbatim>\<open>flash_sim::flash_sim(num_bytes)\<close>: \<^verbatim>\<open>_data(num_bytes)\<close> holds
  \<^verbatim>\<open>num_bytes\<close> zero bytes, \<^verbatim>\<open>_user_operations\<close> is empty.
\<close>

definition new_flash_sim :: "nat \<Rightarrow> flash_sim" where
  "new_flash_sim num_bytes =
     \<lparr>chip_enable = High, serial_input = Low, serial_output = Low,
      chip_state = Deselected, write_enabled = False, bit_index = 0,
      instruction_register = 0, operation = None,
      data = replicate num_bytes 0, user_operations = []\<rparr>"

text \<open>The getters.\<close>

definition get_chip_state :: "flash_sim \<Rightarrow> chip_state" where
  "get_chip_state f = chip_state f"

definition get_chip_enable :: "flash_sim \<Rightarrow> pin_state" where
  "get_chip_enable f = chip_enable f"

definition get_serial_input :: "flash_sim \<Rightarrow> pin_state" where
  "get_serial_input f = serial_input f"

definition get_serial_output :: "flash_sim \<Rightarrow> pin_state" where
  "get_serial_output f = serial_output f"

definition get_data :: "flash_sim \<Rightarrow> 8 word list" where
  "get_data f = data f"

definition get_user_operations :: "flash_sim \<Rightarrow> user_operation list" where
  "get_user_operations f = user_operations f"

text \<open>
  \<^verbatim>\<open>(_serial_input == pin_state::high ? 1 : 0)\<close>, as a byte and as a \<^verbatim>\<open>std::uint32_t\<close>.
\<close>

definition input_bit :: "flash_sim \<Rightarrow> 'a::len word" where
  "input_bit f = (if serial_input f = High then 1 else 0)"

text \<open>
  \<^verbatim>\<open>operator<<(std::byte b, shift)\<close> is
  \<^verbatim>\<open>std::byte(static_cast<unsigned int>(b) << shift)\<close>: the shift is done on 32 bits and
  the result cut to 8. It is defined for \<open>shift < 32\<close> only; the callers check that.
\<close>

definition byte_shift_left :: "8 word \<Rightarrow> 8 word \<Rightarrow> 8 word" where
  "byte_shift_left b shift = ucast (push_bit (unat shift) (ucast b :: 32 word))"

subsection \<open>operation_with_address\<close>

text \<open>
  The constructor sets \<^verbatim>\<open>_bit_index(12)\<close> and leaves \<^verbatim>\<open>_address\<close> uninitialised. The value
  the member then holds is the parameter \<open>ia\<close> of the model.
\<close>

definition new_operation_with_address :: "32 word \<Rightarrow> operation_with_address" where
  "new_operation_with_address ia = \<lparr>address_bits = ia, address_bit_index = 12\<rparr>"

text \<open>\<^verbatim>\<open>operation_with_address::address\<close>.\<close>

definition address :: "operation_with_address \<Rightarrow> error + 32 word" where
  "address a =
     (if address_bit_index a \<noteq> 0 then Inl AddressNotReady else Inr (address_bits a))"

text \<open>
  The first branch of \<^verbatim>\<open>operation_with_address::toggle_clock\<close>:
  \<^verbatim>\<open>_address |= (... ? 1 : 0) << --_bit_index\<close>, a shift of a \<^verbatim>\<open>std::uint32_t\<close>.
\<close>

definition clock_address ::
  "flash_sim \<Rightarrow> operation_with_address \<Rightarrow> operation_with_address outcome" where
  "clock_address f a =
     (let i = address_bit_index a - 1 in
      if 32 \<le> unat i then Undefined
      else Returned (a\<lparr>address_bits := address_bits a OR push_bit (unat i) (input_bit f),
                        address_bit_index := i\<rparr>))"

subsection \<open>write_operation\<close>

text \<open>
  The constructor: a buffer of 256 zero bytes, the iterator at its start, bit index 8;
  it throws when the chip is not write enabled.
\<close>

definition new_write_operation :: "32 word \<Rightarrow> flash_sim \<Rightarrow> error + operation" where
  "new_write_operation ia f =
     (if \<not> write_enabled f then Inl WriteEnableRequired
      else Inr (WriteOperation (new_operation_with_address ia)
                  \<lparr>write_buffer = replicate 256 0, current_byte = 0, write_bit_index = 8\<rparr>))"

text \<open>
  \<^verbatim>\<open>write_operation::toggle_chip_enable_impl\<close>:
  \<^verbatim>\<open>std::copy(begin(_write_buffer), end(_write_buffer), begin(_flash._data) + _write_buffer.size())\<close>
  writes the whole buffer over the bytes of \<^verbatim>\<open>_data\<close> from index
  \<^verbatim>\<open>_write_buffer.size()\<close> on, and is undefined when \<^verbatim>\<open>_data\<close> is too short for that.
\<close>

definition write_toggle_chip_enable_impl :: "write_state \<Rightarrow> flash_sim \<Rightarrow> flash_sim outcome" where
  "write_toggle_chip_enable_impl w f =
     (let n = length (write_buffer w) in
      if length (data f) < n + n then Undefined
      else Returned (f\<lparr>data := take n (data f) @ write_buffer w @ drop (n + n) (data f),
                        write_enabled := False\<rparr>))"

text \<open>
  \<^verbatim>\<open>write_operation::toggle_clock_impl\<close>. \<^verbatim>\<open>address() + byte_index\<close> adds a
  \<^verbatim>\<open>std::uint32_t\<close> and a \<^verbatim>\<open>std::ptrdiff_t\<close>; with a 64-bit \<^verbatim>\<open>ptrdiff_t\<close> the sum does not wrap.
  \<^verbatim>\<open>address()\<close> is evaluated only when \<^verbatim>\<open>_bit_index == 8\<close> holds.
\<close>

definition write_toggle_clock_impl ::
  "flash_sim \<Rightarrow> operation_with_address \<Rightarrow> write_state \<Rightarrow> write_state outcome" where
  "write_toggle_clock_impl f a w =
     (if current_byte w = length (write_buffer w) then Threw BufferFull w
      else
        let byte_index = current_byte w;
            check =
              (if write_bit_index w = 8 then
                 (case address a of
                    Inl e \<Rightarrow> Some e
                  | Inr addr \<Rightarrow>
                      if length (data f) \<le> unat addr + byte_index then Some DataOutOfRange
                      else if data f ! (unat addr + byte_index) \<noteq> 0xff
                        then Some NonErasedByteWrite
                      else None)
               else None)
        in case check of
             Some e \<Rightarrow> Threw e w
           | None \<Rightarrow>
               let i = write_bit_index w - 1 in
               if 32 \<le> unat i then Undefined
               else
                 let w1 = w\<lparr>write_buffer :=
                              (write_buffer w)[byte_index :=
                                 write_buffer w ! byte_index OR byte_shift_left (input_bit f) i],
                            write_bit_index := i\<rparr>
                 in if i = 0
                    then Returned (w1\<lparr>current_byte := byte_index + 1, write_bit_index := 8\<rparr>)
                    else Returned w1)"

subsection \<open>The virtual calls\<close>

text \<open>
  \<^verbatim>\<open>_operation->toggle_chip_enable()\<close>: \<^verbatim>\<open>operation_with_address::toggle_chip_enable\<close> for a
  write or a read (\<^verbatim>\<open>read_operation::toggle_chip_enable_impl\<close> is empty),
  \<^verbatim>\<open>write_enable_operation::toggle_chip_enable\<close> and
  \<^verbatim>\<open>chip_erase_operation::toggle_chip_enable\<close>. None of them changes the operation object.
\<close>

fun operation_toggle_chip_enable :: "operation \<Rightarrow> flash_sim \<Rightarrow> flash_sim outcome" where
  "operation_toggle_chip_enable (WriteOperation a w) f =
     (if address_bit_index a \<noteq> 0 then Threw AddressIncomplete f
      else write_toggle_chip_enable_impl w f)"
| "operation_toggle_chip_enable (ReadOperation a) f =
     (if address_bit_index a \<noteq> 0 then Threw AddressIncomplete f
      else Returned f)"
| "operation_toggle_chip_enable WriteEnableOperation f =
     (if write_enabled f then Threw AlreadyWriteEnabled f
      else Returned (f\<lparr>write_enabled := True\<rparr>))"
| "operation_toggle_chip_enable ChipEraseOperation f =
     Returned (f\<lparr>data := map (\<lambda>b. 0xff) (data f), write_enabled := False\<rparr>)"

text \<open>
  \<^verbatim>\<open>_operation->toggle_clock()\<close>: \<^verbatim>\<open>operation_with_address::toggle_clock\<close> for a write or a
  read (\<^verbatim>\<open>read_operation::toggle_clock_impl\<close> is empty), and the two that always throw.
  None of them changes the chip; the result is the operation object after the call.
\<close>

fun operation_toggle_clock :: "operation \<Rightarrow> flash_sim \<Rightarrow> operation outcome" where
  "operation_toggle_clock (WriteOperation a w) f =
     (if address_bit_index a \<noteq> 0 then
        (case clock_address f a of
           Returned a' \<Rightarrow> Returned (WriteOperation a' w)
         | Threw e a' \<Rightarrow> Threw e (WriteOperation a' w)
         | Undefined \<Rightarrow> Undefined)
      else
        (case write_toggle_clock_impl f a w of
           Returned w' \<Rightarrow> Returned (WriteOperation a w')
         | Threw e w' \<Rightarrow> Threw e (WriteOperation a w')
         | Undefined \<Rightarrow> Undefined))"
| "operation_toggle_clock (ReadOperation a) f =
     (if address_bit_index a \<noteq> 0 then
        (case clock_address f a of
           Returned a' \<Rightarrow> Returned (ReadOperation a')
         | Threw e a' \<Rightarrow> Threw e (ReadOperation a')
         | Undefined \<Rightarrow> Undefined)
      else Returned (ReadOperation a))"
| "operation_toggle_clock WriteEnableOperation f = Threw ClockNotApplicable WriteEnableOperation"
| "operation_toggle_clock ChipEraseOperation f = Threw ClockNotApplicable ChipEraseOperation"

subsection \<open>The opcode table\<close>

text \<open>
  \<^verbatim>\<open>_operation_map.at(_instruction_register)(*this)\<close>: the lookup throws
  \<^verbatim>\<open>std::out_of_range\<close> for a byte that is not a key; the constructors of the write and of
  the chip erase throw when the chip is not write enabled.
\<close>

definition operation_map :: "32 word \<Rightarrow> 8 word \<Rightarrow> flash_sim \<Rightarrow> error + operation" where
  "operation_map ia opcode f =
     (if opcode = 0x02 then new_write_operation ia f
      else if opcode = 0x03 then Inr (ReadOperation (new_operation_with_address ia))
      else if opcode = 0x06 then Inr WriteEnableOperation
      else if opcode = 0x60 then
        (if \<not> write_enabled f then Inl WriteEnableRequired else Inr ChipEraseOperation)
      else Inl UnknownOpcode)"

subsection \<open>The pin toggles\<close>

text \<open>\<^verbatim>\<open>flash_sim::toggle_chip_enable\<close>.\<close>

definition toggle_chip_enable :: "flash_sim \<Rightarrow> flash_sim outcome" where
  "toggle_chip_enable f =
     (case chip_state f of
        Deselected \<Rightarrow>
          Returned (f\<lparr>user_operations := user_operations f @ [ToggleChipEnable],
                      chip_state := Command, bit_index := 8\<rparr>)
      | Command \<Rightarrow> Threw InvalidTransition f
      | Operation \<Rightarrow>
          (case operation f of
             None \<Rightarrow> Threw NoOperation f
           | Some op \<Rightarrow>
               (case operation_toggle_chip_enable op
                       (f\<lparr>user_operations := user_operations f @ [ToggleChipEnable]\<rparr>) of
                  Returned f' \<Rightarrow>
                    Returned (f'\<lparr>operation := None, instruction_register := 0,
                                 chip_state := Deselected\<rparr>)
                | Threw e f' \<Rightarrow> Threw e f'
                | Undefined \<Rightarrow> Undefined)))"

text \<open>
  \<^verbatim>\<open>flash_sim::toggle_serial_input\<close>. \<^verbatim>\<open>_user_operations.back()\<close> of an empty vector is
  undefined.
\<close>

definition toggle_serial_input :: "flash_sim \<Rightarrow> flash_sim outcome" where
  "toggle_serial_input f =
     (case chip_state f of
        Deselected \<Rightarrow> Threw InvalidTransition f
      | _ \<Rightarrow>
          if user_operations f = [] then Undefined
          else if last (user_operations f) = ToggleSerialInput then Threw InvalidTransition f
          else Returned (f\<lparr>user_operations := user_operations f @ [ToggleSerialInput],
                           serial_input := (if serial_input f = High then Low else High)\<rparr>))"

text \<open>
  \<^verbatim>\<open>flash_sim::toggle_clock\<close>. \<open>ia\<close> is the content of the uninitialised \<^verbatim>\<open>_address\<close> of an
  operation this call may construct. In the command state the token is logged and the bit
  shifted in before the lookup, which may throw.
\<close>

definition toggle_clock :: "32 word \<Rightarrow> flash_sim \<Rightarrow> flash_sim outcome" where
  "toggle_clock ia f =
     (case chip_state f of
        Deselected \<Rightarrow> Threw InvalidTransition f
      | Command \<Rightarrow>
          (let i = bit_index f - 1 in
           if 32 \<le> unat i then Undefined
           else
             let f1 = f\<lparr>user_operations := user_operations f @ [ToggleClock],
                        instruction_register :=
                          instruction_register f OR byte_shift_left (input_bit f) i,
                        bit_index := i\<rparr>
             in if i = 0 then
                  (case operation_map ia (instruction_register f1) f1 of
                     Inl e \<Rightarrow> Threw e f1
                   | Inr op \<Rightarrow> Returned (f1\<lparr>operation := Some op, chip_state := Operation\<rparr>))
                else Returned f1)
      | Operation \<Rightarrow>
          (case operation f of
             None \<Rightarrow> Threw NoOperation f
           | Some op \<Rightarrow>
               let f1 = f\<lparr>user_operations := user_operations f @ [ToggleClock]\<rparr>
               in (case operation_toggle_clock op f1 of
                     Returned op' \<Rightarrow> Returned (f1\<lparr>operation := Some op'\<rparr>)
                   | Threw e op' \<Rightarrow> Threw e (f1\<lparr>operation := Some op'\<rparr>)
                   | Undefined \<Rightarrow> Undefined)))"

text \<open>\<^verbatim>\<open>flash_sim::wait_for_write_complete\<close>: the body is empty.\<close>

definition wait_for_write_complete :: "flash_sim \<Rightarrow> flash_sim outcome" where
  "wait_for_write_complete f = Returned f"

section \<open>The base class (flash.cpp, flash.ipp)\<close>

text \<open>\<^verbatim>\<open>flash::perform_user_operation\<close>.\<close>

fun perform_user_operation :: "32 word \<Rightarrow> user_operation \<Rightarrow> flash_sim \<Rightarrow> flash_sim outcome" where
  "perform_user_operation ia ToggleChipEnable f = toggle_chip_enable f"
| "perform_user_operation ia ToggleSerialInput f = toggle_serial_input f"
| "perform_user_operation ia ToggleClock f = toggle_clock ia f"
| "perform_user_operation ia WaitForWriteComplete f = wait_for_write_complete f"

text \<open>
  A caller performing a sequence of user operations one after the other; an exception that
  nobody catches ends the sequence.
\<close>

fun perform_all :: "32 word \<Rightarrow> user_operation list \<Rightarrow> flash_sim \<Rightarrow> flash_sim outcome" where
  "perform_all ia [] f = Returned f"
| "perform_all ia (op # ops) f =
     (case perform_user_operation ia op f of
        Returned f' \<Rightarrow> perform_all ia ops f'
      | Threw e f' \<Rightarrow> Threw e f'
      | Undefined \<Rightarrow> Undefined)"

text \<open>
  \<^verbatim>\<open>flash::clock_in_data<num_bits>(data)\<close>: the loop runs \<open>bit\<close> from \<^verbatim>\<open>num_bits\<close> down to 1;
  \<^verbatim>\<open>data & (1 << (bit - 1))\<close> is bit \<open>bit - 1\<close> of \<open>data\<close> (the callers here clock in
  at most 24 bits of a non-negative \<^verbatim>\<open>int\<close>).
\<close>

fun clock_in_data :: "32 word \<Rightarrow> nat \<Rightarrow> nat \<Rightarrow> flash_sim \<Rightarrow> flash_sim outcome" where
  "clock_in_data ia 0 d f = Returned f"
| "clock_in_data ia (Suc b) d f =
     (let bit_set = bit d b;
          current_state = get_serial_input f;
          r = (if (bit_set \<and> current_state = Low) \<or> (\<not> bit_set \<and> current_state = High)
               then toggle_serial_input f else Returned f)
      in case r of
           Returned f1 \<Rightarrow>
             (case toggle_clock ia f1 of
                Returned f2 \<Rightarrow> clock_in_data ia b d f2
              | Threw e f2 \<Rightarrow> Threw e f2
              | Undefined \<Rightarrow> Undefined)
         | Threw e f1 \<Rightarrow> Threw e f1
         | Undefined \<Rightarrow> Undefined)"

text \<open>
  \<^verbatim>\<open>flash::clock_out_data<num_bits>()\<close>, with the accumulator \<^verbatim>\<open>value\<close> as an argument
  (\<open>0\<close> at the call). The result is the value read and the chip after the call.
\<close>

fun clock_out_loop :: "32 word \<Rightarrow> nat \<Rightarrow> nat \<Rightarrow> flash_sim \<Rightarrow> (nat \<times> flash_sim) outcome" where
  "clock_out_loop ia 0 v f = Returned (v, f)"
| "clock_out_loop ia (Suc b) v f =
     (let v1 = (if get_serial_output f = High then v OR push_bit b 1 else v)
      in case toggle_clock ia f of
           Returned f1 \<Rightarrow> clock_out_loop ia b v1 f1
         | Threw e f1 \<Rightarrow> Threw e (v1, f1)
         | Undefined \<Rightarrow> Undefined)"

definition clock_out_data :: "32 word \<Rightarrow> nat \<Rightarrow> flash_sim \<Rightarrow> (nat \<times> flash_sim) outcome" where
  "clock_out_data ia num_bits f = clock_out_loop ia num_bits 0 f"

text \<open>
  A caller making several calls on the chip one after the other, as the test case of
  \<^verbatim>\<open>flash_sim_tests.cpp\<close> does; an exception that nobody catches ends the sequence.
\<close>

fun sequence :: "(flash_sim \<Rightarrow> flash_sim outcome) list \<Rightarrow> flash_sim \<Rightarrow> flash_sim outcome" where
  "sequence [] f = Returned f"
| "sequence (call # calls) f =
     (case call f of
        Returned f' \<Rightarrow> sequence calls f'
      | Threw e f' \<Rightarrow> Threw e f'
      | Undefined \<Rightarrow> Undefined)"

section \<open>The states a chip can be in\<close>

text \<open>
  The chips a caller can hold: a newly constructed one, and the chip after a call of
  \<^verbatim>\<open>perform_user_operation\<close> that has returned or has thrown. A call that throws leaves the
  chip as it was at the throw, and the caller may catch the exception and go on. The
  uninitialised address may differ from one call to the next.
\<close>

inductive reachable :: "nat \<Rightarrow> flash_sim \<Rightarrow> bool" for num_bytes :: nat where
  constructed: "reachable num_bytes (new_flash_sim num_bytes)"
| returned: "reachable num_bytes f \<Longrightarrow> perform_user_operation ia op f = Returned f'
             \<Longrightarrow> reachable num_bytes f'"
| threw: "reachable num_bytes f \<Longrightarrow> perform_user_operation ia op f = Threw e f'
             \<Longrightarrow> reachable num_bytes f'"

text \<open>The invariant behind the defensive checks of the pin toggles.\<close>

definition operation_present :: "flash_sim \<Rightarrow> bool" where
  "operation_present f \<longleftrightarrow>
     (chip_state f = Operation \<longrightarrow> operation f \<noteq> None)
     \<and> (chip_state f = Command \<or> chip_state f = Operation \<longrightarrow> user_operations f \<noteq> [])"

text \<open>
  Two chips that differ at most in the address bits of their active operation: the part of
  the chip that does not depend on the uninitialised \<^verbatim>\<open>_address\<close>.
\<close>

fun forget_address :: "operation \<Rightarrow> operation" where
  "forget_address (WriteOperation a w) =
     WriteOperation \<lparr>address_bits = 0, address_bit_index = address_bit_index a\<rparr> w"
| "forget_address (ReadOperation a) =
     ReadOperation \<lparr>address_bits = 0, address_bit_index = address_bit_index a\<rparr>"
| "forget_address WriteEnableOperation = WriteEnableOperation"
| "forget_address ChipEraseOperation = ChipEraseOperation"

definition same_but_address :: "flash_sim \<Rightarrow> flash_sim \<Rightarrow> bool" where
  "same_but_address f g \<longleftrightarrow>
     chip_enable f = chip_enable g \<and> serial_input f = serial_input g
     \<and> serial_output f = serial_output g \<and> chip_state f = chip_state g
     \<and> write_enabled f = write_enabled g \<and> bit_index f = bit_index g
     \<and> instruction_register f = instruction_register g
     \<and> map_option forget_address (operation f) = map_option forget_address (operation g)
     \<and> data f = data g \<and> user_operations f = user_operations g"

section \<open>The scenarios\<close>

text \<open>
  A log written with the characters of \<^verbatim>\<open>user_operation_to_char\<close>.
\<close>

definition log_of :: "string \<Rightarrow> user_operation list" where
  "log_of s =
     map (\<lambda>c. if c = CHR ''e'' then ToggleChipEnable
               else if c = CHR ''i'' then ToggleSerialInput
               else if c = CHR ''c'' then ToggleClock
               else WaitForWriteComplete) s"

text \<open>
  Scenario A is the first command of the test case of \<^verbatim>\<open>flash_sim_tests.cpp\<close> (write enable),
  scenario B its second (chip erase).
\<close>

definition scenario_A :: "32 word \<Rightarrow> (flash_sim \<Rightarrow> flash_sim outcome) list" where
  "scenario_A ia = [toggle_chip_enable, clock_in_data ia 8 0x06, toggle_chip_enable]"

definition scenario_B :: "32 word \<Rightarrow> (flash_sim \<Rightarrow> flash_sim outcome) list" where
  "scenario_B ia = [toggle_chip_enable, clock_in_data ia 8 0x60, toggle_chip_enable]"

text \<open>
  A page write of one byte: the opcode 0x02, an address clocked in as \<open>address_width\<close>
  bits, one data byte, and the chip-enable toggle that ends the command. Scenario C enables
  writing and writes 0xAB with the 24-bit address 0x000010.
\<close>

definition page_write ::
  "32 word \<Rightarrow> nat \<Rightarrow> nat \<Rightarrow> nat \<Rightarrow> (flash_sim \<Rightarrow> flash_sim outcome) list" where
  "page_write ia address_width addr byte =
     [toggle_chip_enable, clock_in_data ia 8 0x02, clock_in_data ia address_width addr,
      clock_in_data ia 8 byte, toggle_chip_enable]"

definition scenario_C :: "32 word \<Rightarrow> (flash_sim \<Rightarrow> flash_sim outcome) list" where
  "scenario_C ia = scenario_A ia @ page_write ia 24 0x000010 0xAB"

text \<open>
  The start of a read: the opcode 0x03 and an address clocked in as \<open>address_width\<close>
  bits. Scenario D reads with the 24-bit address 0x000010.
\<close>

definition read_start ::
  "32 word \<Rightarrow> nat \<Rightarrow> nat \<Rightarrow> (flash_sim \<Rightarrow> flash_sim outcome) list" where
  "read_start ia address_width addr =
     [toggle_chip_enable, clock_in_data ia 8 0x03, clock_in_data ia address_width addr]"

definition scenario_D :: "32 word \<Rightarrow> (flash_sim \<Rightarrow> flash_sim outcome) list" where
  "scenario_D ia = read_start ia 24 0x000010"

text \<open>The chips these scenarios pass through, on a new chip of 4096 bytes.\<close>

definition chip_in_write_enable :: flash_sim where
  "chip_in_write_enable =
     (new_flash_sim 4096)
       \<lparr>chip_state := Operation, instruction_register := 0x06,
        operation := Some WriteEnableOperation,
        user_operations := log_of ''eccccciccic''\<rparr>"

definition chip_before_opcode_ff :: flash_sim where
  "chip_before_opcode_ff =
     (new_flash_sim 4096)
       \<lparr>serial_input := High, chip_state := Command, bit_index := 1,
        instruction_register := 0xfe, user_operations := log_of ''eiccccccc''\<rparr>"

definition chip_after_opcode_ff :: flash_sim where
  "chip_after_opcode_ff =
     (new_flash_sim 4096)
       \<lparr>serial_input := High, chip_state := Command, bit_index := 0,
        instruction_register := 0xff, user_operations := log_of ''eicccccccc''\<rparr>"

definition chip_before_opcode_02 :: flash_sim where
  "chip_before_opcode_02 =
     (new_flash_sim 4096)
       \<lparr>chip_state := Command, bit_index := 1, instruction_register := 0x02,
        user_operations := log_of ''eccccccici''\<rparr>"

definition chip_before_opcode_60 :: flash_sim where
  "chip_before_opcode_60 =
     (new_flash_sim 4096)
       \<lparr>chip_state := Command, bit_index := 1, instruction_register := 0x60,
        user_operations := log_of ''eciccicccc''\<rparr>"

definition chip_writing_unerased :: flash_sim where
  "chip_writing_unerased =
     (new_flash_sim 4096)
       \<lparr>chip_state := Operation, write_enabled := True, instruction_register := 0x02,
        operation :=
          Some (WriteOperation \<lparr>address_bits = 0x10, address_bit_index = 0\<rparr>
                  \<lparr>write_buffer = replicate 256 0, current_byte = 0, write_bit_index = 8\<rparr>),
        user_operations := log_of ''ecccccicciceecccccciciccccccccicicccc''\<rparr>"

definition chip_writing_second_bit :: flash_sim where
  "chip_writing_second_bit =
     (new_flash_sim 4096)
       \<lparr>serial_input := High, chip_state := Operation, write_enabled := True,
        instruction_register := 0x02,
        operation :=
          Some (WriteOperation \<lparr>address_bits = 0x10, address_bit_index = 0\<rparr>
                  \<lparr>write_buffer = (replicate 256 0)[0 := 0x80], current_byte = 0,
                   write_bit_index = 7\<rparr>),
        data := replicate 4096 0xff,
        user_operations :=
          log_of (''ecccccicciceecicciccccceeccccciccice'' @
                  ''eccccccicicccccccciciccccic'')\<rparr>"

definition chip_after_scenario_C :: flash_sim where
  "chip_after_scenario_C =
     (new_flash_sim 4096)
       \<lparr>serial_input := High,
        data := replicate 256 0xff @ [0x01, 0x0a, 0xb0] @ replicate 253 0x00
                @ replicate 3584 0xff,
        user_operations :=
          log_of (''ecccccicciceecicciccccceeccccciccice'' @
                  ''eccccccicicccccccccccccccccccciciccccicicicicicicicce'')\<rparr>"

definition chip_after_short_address_write :: flash_sim where
  "chip_after_short_address_write =
     (new_flash_sim 4096)
       \<lparr>serial_input := High,
        data := replicate 256 0xff @ [0xab] @ replicate 255 0x00 @ replicate 3584 0xff,
        user_operations :=
          log_of (''ecccccicciceecicciccccceeccccciccice'' @
                  ''eccccccicicccccccciciccccicicicicicicicce'')\<rparr>"

definition chip_replay_out_of_range :: flash_sim where
  "chip_replay_out_of_range =
     (new_flash_sim 4096)
       \<lparr>serial_input := High, chip_state := Operation, write_enabled := True,
        instruction_register := 0x02,
        operation :=
          Some (WriteOperation \<lparr>address_bits = 0xffffffff, address_bit_index = 0\<rparr>
                  \<lparr>write_buffer = replicate 256 0, current_byte = 0, write_bit_index = 8\<rparr>),
        data := replicate 4096 0xff,
        user_operations :=
          log_of (''ecccccicciceecicciccccceeccccciccice'' @
                  ''eccccccicicccccccciciccccic'')\<rparr>"

definition chip_after_scenario_D :: flash_sim where
  "chip_after_scenario_D =
     chip_after_scenario_C
       \<lparr>serial_input := Low, chip_state := Operation, instruction_register := 0x03,
        operation := Some (ReadOperation \<lparr>address_bits = 0, address_bit_index = 0\<rparr>),
        user_operations :=
          user_operations chip_after_scenario_C
          @ log_of ''eicccccciccicccccccccccccccccccicicccc''\<rparr>"

definition chip_reading_erased :: flash_sim where
  "chip_reading_erased =
     (new_flash_sim 4096)
       \<lparr>chip_state := Operation, instruction_register := 0x03,
        operation := Some (ReadOperation \<lparr>address_bits = 0, address_bit_index = 0\<rparr>),
        data := replicate 4096 0xff,
        user_operations := log_of ''ecccccicciceecicciccccceecccccciccicccccccccccc''\<rparr>"

section \<open>The token encoding is a bijection on the four tokens\<close>

text \<open>
  C9. \<^verbatim>\<open>user_operation_to_char\<close> maps the four user operations to \<open>e\<close>, \<open>i\<close>, \<open>c\<close>, \<open>w\<close>;
  \<^verbatim>\<open>char_to_user_operation\<close> undoes it on every user operation, and fails on every other
  character.
\<close>

theorem user_operation_char_round_trip:
  "user_operation_to_char ToggleChipEnable = CHR ''e''
   \<and> user_operation_to_char ToggleSerialInput = CHR ''i''
   \<and> user_operation_to_char ToggleClock = CHR ''c''
   \<and> user_operation_to_char WaitForWriteComplete = CHR ''w''
   \<and> (\<forall>op. char_to_user_operation (user_operation_to_char op) = Inr op)
   \<and> (\<forall>c. c \<notin> {CHR ''e'', CHR ''i'', CHR ''c'', CHR ''w''}
          \<longrightarrow> char_to_user_operation c = Inl InvalidArgument)"
proof -
  have inv: "char_to_user_operation (user_operation_to_char op) = Inr op" for op
    by (cases op) (simp_all add: char_to_user_operation_def)
  have other: "char_to_user_operation c = Inl InvalidArgument"
    if "c \<notin> {CHR ''e'', CHR ''i'', CHR ''c'', CHR ''w''}" for c
    using that by (simp add: char_to_user_operation_def)
  from inv other show ?thesis by simp
qed

theorem user_operation_char_round_trip_witness:
  "CHR ''x'' \<notin> {CHR ''e'', CHR ''i'', CHR ''c'', CHR ''w''}
   \<and> char_to_user_operation CHR ''x'' = Inl InvalidArgument
   \<and> char_to_user_operation (user_operation_to_char ToggleClock) = Inr ToggleClock"
proof -
  have h: "CHR ''x'' \<notin> {CHR ''e'', CHR ''i'', CHR ''c'', CHR ''w''}" by simp
  from user_operation_char_round_trip
  have "\<forall>c. c \<notin> {CHR ''e'', CHR ''i'', CHR ''c'', CHR ''w''}
          \<longrightarrow> char_to_user_operation c = Inl InvalidArgument"
    and "\<forall>op. char_to_user_operation (user_operation_to_char op) = Inr op"
    by blast+
  with h show ?thesis by blast
qed

section \<open>Waiting for a write\<close>

text \<open>
  C8, as the claim states it, fails: the call does not append the token. On a new chip of
  4096 bytes the call does not return the chip with \<open>WaitForWriteComplete\<close> added to
  its log.
\<close>

theorem wait_for_write_complete_not_logged:
  "wait_for_write_complete (new_flash_sim 4096)
   \<noteq> Returned ((new_flash_sim 4096)
        \<lparr>user_operations :=
           user_operations (new_flash_sim 4096) @ [WaitForWriteComplete]\<rparr>)"
  by (simp add: wait_for_write_complete_def new_flash_sim_def)

text \<open>
  C8, amended. A \<^verbatim>\<open>wait_for_write_complete\<close> call, made directly or through
  \<^verbatim>\<open>perform_user_operation\<close>, always returns and leaves the whole chip as it was, its
  log of user operations included: nothing is appended.
\<close>

theorem wait_for_write_complete_no_op:
  "wait_for_write_complete f = Returned f
   \<and> perform_user_operation ia WaitForWriteComplete f = Returned f
   \<and> get_user_operations f = user_operations f"
  by (simp add: wait_for_write_complete_def get_user_operations_def)

section \<open>What a call that throws leaves behind\<close>

lemma operation_toggle_chip_enable_Threw:
  assumes "operation_toggle_chip_enable op g = Threw e g'"
  shows "g' = g \<and> e \<in> {AddressIncomplete, AlreadyWriteEnabled}"
  using assms
  by (cases op) (auto simp add: write_toggle_chip_enable_impl_def Let_def split: if_splits)

lemma write_toggle_clock_impl_Threw:
  assumes "write_toggle_clock_impl g a w = Threw e w'"
  shows "w' = w \<and> e \<in> {BufferFull, AddressNotReady, DataOutOfRange, NonErasedByteWrite}"
  using assms
  by (auto simp add: write_toggle_clock_impl_def address_def Let_def
      split: if_splits option.splits sum.splits)

lemma clock_address_not_Threw: "clock_address g a \<noteq> Threw e a'"
  by (simp add: clock_address_def Let_def)

lemma operation_toggle_clock_Threw:
  assumes "operation_toggle_clock op g = Threw e op'"
  shows "op' = op
    \<and> e \<in> {BufferFull, AddressNotReady, DataOutOfRange, NonErasedByteWrite, ClockNotApplicable}"
proof (cases op)
  case (WriteOperation a w)
  with assms show ?thesis
    by (auto simp add: clock_address_not_Threw split: if_splits outcome.splits
        dest: write_toggle_clock_impl_Threw)
next
  case (ReadOperation a)
  with assms show ?thesis
    by (auto simp add: clock_address_not_Threw split: if_splits outcome.splits)
qed (use assms in auto)

lemma toggle_chip_enable_Threw:
  assumes "toggle_chip_enable f = Threw e f'"
  shows "(e \<in> {InvalidTransition, NoOperation} \<and> f' = f)
       \<or> (e \<in> {AddressIncomplete, AlreadyWriteEnabled} \<and> chip_state f = Operation
          \<and> f' = f\<lparr>user_operations := user_operations f @ [ToggleChipEnable]\<rparr>)"
  using assms
  by (auto simp add: toggle_chip_enable_def
      split: chip_state.splits option.splits outcome.splits
      dest!: operation_toggle_chip_enable_Threw)

lemma toggle_serial_input_Threw:
  assumes "toggle_serial_input f = Threw e f'"
  shows "e = InvalidTransition \<and> f' = f"
  using assms
  by (auto simp add: toggle_serial_input_def split: chip_state.splits if_splits)

lemma operation_map_error:
  assumes "operation_map ia opcode g = Inl e"
  shows "e \<in> {UnknownOpcode, WriteEnableRequired}"
  using assms
  by (auto simp add: operation_map_def new_write_operation_def split: if_splits)

lemma toggle_clock_Threw:
  assumes "toggle_clock ia f = Threw e f'"
  shows "(e \<in> {InvalidTransition, NoOperation} \<and> f' = f)
       \<or> (e \<in> {BufferFull, AddressNotReady, DataOutOfRange, NonErasedByteWrite, ClockNotApplicable}
          \<and> chip_state f = Operation
          \<and> f' = f\<lparr>user_operations := user_operations f @ [ToggleClock]\<rparr>)
       \<or> (e \<in> {UnknownOpcode, WriteEnableRequired} \<and> chip_state f = Command
          \<and> f' = f\<lparr>user_operations := user_operations f @ [ToggleClock],
                    instruction_register :=
                      instruction_register f OR byte_shift_left (input_bit f) 0,
                    bit_index := 0\<rparr>)"
proof (cases "chip_state f")
  case Deselected
  with assms show ?thesis by (simp add: toggle_clock_def)
next
  case Command
  with assms show ?thesis
    by (auto simp add: toggle_clock_def Let_def split: if_splits sum.splits
        dest: operation_map_error)
next
  case Operation
  with assms show ?thesis
    by (auto simp add: toggle_clock_def Let_def split: option.splits outcome.splits
        dest!: operation_toggle_clock_Threw)
qed

text \<open>
  C3, amended. A pin toggle that throws leaves the chip state, the three pins, the write
  enable flag, the memory array and the active operation as they were. When the chip state
  machine itself rejects the call (\<open>InvalidTransition\<close>, \<open>NoOperation\<close>) the whole chip
  is as before the call and nothing is logged. Every other failure comes from the opcode
  lookup, from the constructor of an operation or from the active operation, after the
  token has been appended to the log: in the operation state the log is the only change, in
  the command state the bit has also been shifted into the instruction register and the bit
  index has reached 0.
\<close>

theorem failed_toggle_keeps_memory_and_pins:
  assumes "perform_user_operation ia op f = Threw e f'"
  shows "get_chip_state f' = get_chip_state f
       \<and> get_chip_enable f' = get_chip_enable f
       \<and> get_serial_input f' = get_serial_input f
       \<and> get_serial_output f' = get_serial_output f
       \<and> write_enabled f' = write_enabled f
       \<and> get_data f' = get_data f
       \<and> operation f' = operation f
       \<and> (e \<in> {InvalidTransition, NoOperation} \<longrightarrow> f' = f)
       \<and> (e \<notin> {InvalidTransition, NoOperation} \<longrightarrow>
            get_user_operations f' = get_user_operations f @ [op]
            \<and> (get_chip_state f = Operation \<longrightarrow>
                 f' = f\<lparr>user_operations := user_operations f @ [op]\<rparr>)
            \<and> (get_chip_state f = Command \<longrightarrow>
                 f' = f\<lparr>user_operations := user_operations f @ [op],
                        instruction_register :=
                          instruction_register f OR byte_shift_left (input_bit f) 0,
                        bit_index := 0\<rparr>))"
proof (cases op)
  case ToggleChipEnable
  with assms have "toggle_chip_enable f = Threw e f'" by simp
  from toggle_chip_enable_Threw [OF this] ToggleChipEnable show ?thesis
    by (auto simp add: get_chip_state_def get_chip_enable_def get_serial_input_def
        get_serial_output_def get_data_def get_user_operations_def)
next
  case ToggleSerialInput
  with assms have "toggle_serial_input f = Threw e f'" by simp
  from toggle_serial_input_Threw [OF this] show ?thesis by simp
next
  case ToggleClock
  with assms have "toggle_clock ia f = Threw e f'" by simp
  from toggle_clock_Threw [OF this] ToggleClock show ?thesis
    by (auto simp add: get_chip_state_def get_chip_enable_def get_serial_input_def
        get_serial_output_def get_data_def get_user_operations_def)
next
  case WaitForWriteComplete
  with assms show ?thesis by (simp add: wait_for_write_complete_def)
qed

section \<open>Opcodes that are refused\<close>

text \<open>
  C4, amended. When a clock toggle completes the instruction register with a byte that is
  none of 0x02, 0x03, 0x06, 0x60, the call fails with \<open>UnknownOpcode\<close> and the chip
  stays in the command state; a chip-enable toggle after that fails with
  \<open>InvalidTransition\<close> and leaves the chip in the command state, unchanged.
\<close>

theorem unknown_opcode_stays_in_command:
  assumes "chip_state f = Command" and "bit_index f = 1"
    and "instruction_register f OR byte_shift_left (input_bit f) 0 \<notin> {0x02, 0x03, 0x06, 0x60}"
    and "f' = f\<lparr>user_operations := user_operations f @ [ToggleClock],
                instruction_register :=
                  instruction_register f OR byte_shift_left (input_bit f) 0,
                bit_index := 0\<rparr>"
  shows "toggle_clock ia f = Threw UnknownOpcode f'
         \<and> get_chip_state f' = Command
         \<and> toggle_chip_enable f' = Threw InvalidTransition f'"
  using assms
  by (auto simp add: toggle_clock_def operation_map_def get_chip_state_def
      toggle_chip_enable_def)

text \<open>
  C5. On any chip that is not write enabled, the clock toggle that completes the
  instruction register to 0x02 (page write) or to 0x60 (chip erase) fails with
  \<open>WriteEnableRequired\<close>, and the memory array is as before.
\<close>

theorem write_and_erase_need_write_enable:
  assumes "chip_state f = Command" and "bit_index f = 1" and "\<not> write_enabled f"
    and "instruction_register f OR byte_shift_left (input_bit f) 0 = 0x02
         \<or> instruction_register f OR byte_shift_left (input_bit f) 0 = 0x60"
    and "f' = f\<lparr>user_operations := user_operations f @ [ToggleClock],
                instruction_register :=
                  instruction_register f OR byte_shift_left (input_bit f) 0,
                bit_index := 0\<rparr>"
  shows "toggle_clock ia f = Threw WriteEnableRequired f' \<and> get_data f' = get_data f"
  using assms
  by (auto simp add: toggle_clock_def operation_map_def new_write_operation_def get_data_def)

section \<open>Writing over a byte that is not erased\<close>

text \<open>
  C6. In a page write whose address is complete and whose buffer is not full: the clock
  toggle for the first bit of a byte (\<open>write_bit_index = 8\<close>) fails with
  \<open>NonErasedByteWrite\<close> when the byte of the memory array at the address plus the byte
  offset is not 0xFF, whatever the serial input pin holds; the clock toggles for the other
  seven bits return whatever the memory array holds.
\<close>

theorem write_checks_first_bit_only:
  assumes "chip_state f = Operation" and "operation f = Some (WriteOperation a w)"
    and "address_bit_index a = 0" and "current_byte w < length (write_buffer w)"
  shows "(write_bit_index w = 8
          \<and> unat (address_bits a) + current_byte w < length (data f)
          \<and> data f ! (unat (address_bits a) + current_byte w) \<noteq> 0xff
          \<longrightarrow> toggle_clock ia f
                = Threw NonErasedByteWrite
                    (f\<lparr>user_operations := user_operations f @ [ToggleClock]\<rparr>))
       \<and> (write_bit_index w \<in> {1, 2, 3, 4, 5, 6, 7}
          \<longrightarrow> (\<exists>f'. toggle_clock ia f = Returned f'))"
proof (intro conjI impI)
  assume "write_bit_index w = 8
          \<and> unat (address_bits a) + current_byte w < length (data f)
          \<and> data f ! (unat (address_bits a) + current_byte w) \<noteq> 0xff"
  with assms
  show "toggle_clock ia f
        = Threw NonErasedByteWrite (f\<lparr>user_operations := user_operations f @ [ToggleClock]\<rparr>)"
    by (simp add: toggle_clock_def write_toggle_clock_impl_def address_def Let_def)
next
  assume "write_bit_index w \<in> {1, 2, 3, 4, 5, 6, 7}"
  with assms show "\<exists>f'. toggle_clock ia f = Returned f'"
    by (auto simp add: toggle_clock_def write_toggle_clock_impl_def address_def Let_def)
qed

section \<open>The active operation and the log are there when they are read\<close>

lemma operation_toggle_chip_enable_frame:
  assumes "operation_toggle_chip_enable op g = Returned g'"
  shows "user_operations g' = user_operations g \<and> chip_state g' = chip_state g
    \<and> operation g' = operation g"
  using assms
  by (cases op) (auto simp add: write_toggle_chip_enable_impl_def Let_def split: if_splits)

lemma toggle_chip_enable_present:
  assumes "operation_present f"
    and "toggle_chip_enable f = Returned f' \<or> toggle_chip_enable f = Threw e f'"
  shows "operation_present f'"
  using assms
  by (auto simp add: toggle_chip_enable_def operation_present_def
      split: chip_state.splits option.splits outcome.splits
      dest!: operation_toggle_chip_enable_Threw)

lemma toggle_serial_input_present:
  assumes "operation_present f"
    and "toggle_serial_input f = Returned f' \<or> toggle_serial_input f = Threw e f'"
  shows "operation_present f'"
  using assms
  by (auto simp add: toggle_serial_input_def operation_present_def
      split: chip_state.splits if_splits)

lemma toggle_clock_present:
  assumes "operation_present f"
    and "toggle_clock ia f = Returned f' \<or> toggle_clock ia f = Threw e f'"
  shows "operation_present f'"
  using assms
  by (auto simp add: toggle_clock_def operation_present_def Let_def
      split: chip_state.splits option.splits outcome.splits if_splits sum.splits)

lemma perform_user_operation_present:
  assumes "operation_present f"
    and "perform_user_operation ia op f = Returned f' \<or> perform_user_operation ia op f = Threw e f'"
  shows "operation_present f'"
  using assms
  by (cases op)
    (auto simp add: wait_for_write_complete_def
      dest: toggle_chip_enable_present toggle_serial_input_present toggle_clock_present)

lemma reachable_present: "reachable n f \<Longrightarrow> operation_present f"
proof (induction rule: reachable.induct)
  case constructed
  show ?case by (simp add: operation_present_def new_flash_sim_def)
next
  case (returned f ia op f')
  then show ?case using perform_user_operation_present by blast
next
  case (threw f ia op e f')
  then show ?case using perform_user_operation_present by blast
qed

text \<open>
  C10. On every chip reached from a newly constructed one by pin toggles, whether they
  returned or threw: in the operation state there is an active operation, and in the command
  and operation states the log is not empty. So neither \<^verbatim>\<open>toggle_chip_enable\<close> nor
  \<^verbatim>\<open>toggle_clock\<close> throws "In operation state without an operation.", and
  \<^verbatim>\<open>toggle_serial_input\<close> never reads the last element of an empty log.
\<close>

theorem operation_and_log_present:
  assumes "reachable n f"
  shows "(get_chip_state f = Operation \<longrightarrow> operation f \<noteq> None)
       \<and> (get_chip_state f = Command \<or> get_chip_state f = Operation
            \<longrightarrow> get_user_operations f \<noteq> [])
       \<and> (\<forall>f'. toggle_chip_enable f \<noteq> Threw NoOperation f')
       \<and> (\<forall>ia f'. toggle_clock ia f \<noteq> Threw NoOperation f')
       \<and> toggle_serial_input f \<noteq> Undefined"
proof -
  from assms have p: "operation_present f" by (rule reachable_present)
  have 1: "toggle_chip_enable f \<noteq> Threw NoOperation f'" for f'
    using p
    by (auto simp add: toggle_chip_enable_def operation_present_def
      split: chip_state.splits option.splits outcome.splits
      dest!: operation_toggle_chip_enable_Threw)
  have 2: "toggle_clock ia f \<noteq> Threw NoOperation f'" for ia f'
  proof
    assume "toggle_clock ia f = Threw NoOperation f'"
    from toggle_clock_Threw [OF this] have "f' = f" by auto
    with \<open>toggle_clock ia f = Threw NoOperation f'\<close> p show False
      by (auto simp add: toggle_clock_def operation_present_def Let_def
          split: chip_state.splits option.splits outcome.splits if_splits sum.splits
          dest: operation_map_error operation_toggle_clock_Threw)
  qed
  have 3: "toggle_serial_input f \<noteq> Undefined"
    using p
    by (auto simp add: toggle_serial_input_def operation_present_def
        split: chip_state.splits)
  from p 1 2 3 show ?thesis
    by (simp add: operation_present_def get_chip_state_def get_user_operations_def)
qed

section \<open>Replaying the log\<close>

lemma perform_all_reachable:
  assumes "reachable n f" and "perform_all ia ops f = Returned f'"
  shows "reachable n f'"
  using assms
proof (induction ops arbitrary: f)
  case Nil
  then show ?case by simp
next
  case (Cons op ops)
  then show ?case
    by (auto split: outcome.splits intro: reachable.returned)
qed

lemma toggle_chip_enable_log:
  assumes "toggle_chip_enable f = Returned f'"
  shows "user_operations f' = user_operations f @ [ToggleChipEnable]"
  using assms
  by (auto simp add: toggle_chip_enable_def
      split: chip_state.splits option.splits outcome.splits
      dest!: operation_toggle_chip_enable_frame)

lemma toggle_serial_input_log:
  assumes "toggle_serial_input f = Returned f'"
  shows "user_operations f' = user_operations f @ [ToggleSerialInput]"
  using assms
  by (auto simp add: toggle_serial_input_def split: chip_state.splits if_splits)

lemma toggle_clock_log:
  assumes "toggle_clock ia f = Returned f'"
  shows "user_operations f' = user_operations f @ [ToggleClock]"
  using assms
  by (auto simp add: toggle_clock_def Let_def
      split: chip_state.splits option.splits outcome.splits if_splits sum.splits)

lemma perform_user_operation_log:
  assumes "perform_user_operation ia op f = Returned f'"
  shows "user_operations f' =
           user_operations f @ filter (\<lambda>op. op \<noteq> WaitForWriteComplete) [op]"
  using assms
  by (cases op)
    (auto simp add: wait_for_write_complete_def
      dest: toggle_chip_enable_log toggle_serial_input_log toggle_clock_log)

lemma perform_all_log:
  assumes "perform_all ia ops f = Returned f'"
  shows "user_operations f' =
           user_operations f @ filter (\<lambda>op. op \<noteq> WaitForWriteComplete) ops
       \<and> perform_all ia (filter (\<lambda>op. op \<noteq> WaitForWriteComplete) ops) f = Returned f'"
  using assms
proof (induction ops arbitrary: f)
  case Nil
  then show ?case by simp
next
  case (Cons op ops)
  from Cons.prems obtain f1 where
    step: "perform_user_operation ia op f = Returned f1"
    and rest: "perform_all ia ops f1 = Returned f'"
    by (auto split: outcome.splits)
  show ?case
  proof (cases "op = WaitForWriteComplete")
    case True
    with step have "f1 = f" by (simp add: wait_for_write_complete_def)
    with Cons.IH [OF rest] True show ?thesis by simp
  next
    case False
    with perform_user_operation_log [OF step]
    have "user_operations f1 = user_operations f @ [op]" by simp
    with Cons.IH [OF rest] step False show ?thesis by simp
  qed
qed

subsection \<open>Runs that differ in the uninitialised address\<close>

lemma operation_toggle_clock_same:
  assumes "operation_toggle_clock op f = Returned op1"
    and "operation_toggle_clock op' g = Returned op1'"
    and "forget_address op = forget_address op'"
    and "serial_input f = serial_input g"
  shows "forget_address op1 = forget_address op1'"
  using assms
  by (cases op; cases op')
    (auto simp add: clock_address_def write_toggle_clock_impl_def Let_def input_bit_def
      split: if_splits outcome.splits option.splits)

lemma operation_toggle_chip_enable_same:
  assumes "operation_toggle_chip_enable op f = Returned f1"
    and "operation_toggle_chip_enable op' g = Returned g1"
    and "forget_address op = forget_address op'"
    and "same_but_address f g"
  shows "same_but_address f1 g1"
  using assms
  by (cases op; cases op')
    (auto simp add: write_toggle_chip_enable_impl_def Let_def same_but_address_def
      split: if_splits)

lemma toggle_chip_enable_same:
  assumes "toggle_chip_enable f = Returned f1" and "toggle_chip_enable g = Returned g1"
    and "same_but_address f g"
  shows "same_but_address f1 g1"
proof (cases "chip_state f")
  case Deselected
  with assms show ?thesis
    by (auto simp add: toggle_chip_enable_def same_but_address_def)
next
  case Command
  with assms show ?thesis by (simp add: toggle_chip_enable_def)
next
  case Operation
  with assms have sg: "chip_state g = Operation" by (simp add: same_but_address_def)
  from assms(1) Operation obtain op f2 where
    op: "operation f = Some op"
    and f2: "operation_toggle_chip_enable op
               (f\<lparr>user_operations := user_operations f @ [ToggleChipEnable]\<rparr>) = Returned f2"
    and f1: "f1 = f2\<lparr>operation := None, instruction_register := 0, chip_state := Deselected\<rparr>"
    by (auto simp add: toggle_chip_enable_def split: option.splits outcome.splits)
  from assms(2) sg obtain op' g2 where
    op': "operation g = Some op'"
    and g2: "operation_toggle_chip_enable op'
               (g\<lparr>user_operations := user_operations g @ [ToggleChipEnable]\<rparr>) = Returned g2"
    and g1: "g1 = g2\<lparr>operation := None, instruction_register := 0, chip_state := Deselected\<rparr>"
    by (auto simp add: toggle_chip_enable_def split: option.splits outcome.splits)
  from assms(3) op op' have eq: "forget_address op = forget_address op'"
    by (simp add: same_but_address_def)
  from assms(3) have "same_but_address
      (f\<lparr>user_operations := user_operations f @ [ToggleChipEnable]\<rparr>)
      (g\<lparr>user_operations := user_operations g @ [ToggleChipEnable]\<rparr>)"
    by (simp add: same_but_address_def)
  from operation_toggle_chip_enable_same [OF f2 g2 eq this]
  show ?thesis unfolding f1 g1 by (simp add: same_but_address_def)
qed

lemma toggle_serial_input_same:
  assumes "toggle_serial_input f = Returned f1" and "toggle_serial_input g = Returned g1"
    and "same_but_address f g"
  shows "same_but_address f1 g1"
  using assms
  by (auto simp add: toggle_serial_input_def same_but_address_def
      split: chip_state.splits if_splits)

lemma operation_map_same:
  assumes "operation_map ia opcode f = Inr op" and "operation_map ia' opcode g = Inr op'"
  shows "forget_address op = forget_address op'"
  using assms
  by (auto simp add: operation_map_def new_write_operation_def new_operation_with_address_def
      split: if_splits)

lemma toggle_clock_same:
  assumes "toggle_clock ia f = Returned f1" and "toggle_clock ia' g = Returned g1"
    and "same_but_address f g"
  shows "same_but_address f1 g1"
proof (cases "chip_state f")
  case Deselected
  with assms show ?thesis by (simp add: toggle_clock_def)
next
  case Command
  with assms have sg: "chip_state g = Command" by (simp add: same_but_address_def)
  from assms Command sg show ?thesis
    by (auto simp add: toggle_clock_def Let_def same_but_address_def input_bit_def
        split: if_splits sum.splits dest: operation_map_same)
next
  case Operation
  with assms have sg: "chip_state g = Operation" by (simp add: same_but_address_def)
  from assms(1) Operation obtain op op1 where
    op: "operation f = Some op"
    and op1: "operation_toggle_clock op
               (f\<lparr>user_operations := user_operations f @ [ToggleClock]\<rparr>) = Returned op1"
    and f1: "f1 = f\<lparr>user_operations := user_operations f @ [ToggleClock],
                     operation := Some op1\<rparr>"
    by (auto simp add: toggle_clock_def Let_def split: option.splits outcome.splits)
  from assms(2) sg obtain op' op1' where
    op': "operation g = Some op'"
    and op1': "operation_toggle_clock op'
               (g\<lparr>user_operations := user_operations g @ [ToggleClock]\<rparr>) = Returned op1'"
    and g1: "g1 = g\<lparr>user_operations := user_operations g @ [ToggleClock],
                     operation := Some op1'\<rparr>"
    by (auto simp add: toggle_clock_def Let_def split: option.splits outcome.splits)
  from assms(3) op op' have eq: "forget_address op = forget_address op'"
    by (simp add: same_but_address_def)
  from assms(3) have "serial_input (f\<lparr>user_operations := user_operations f @ [ToggleClock]\<rparr>)
      = serial_input (g\<lparr>user_operations := user_operations g @ [ToggleClock]\<rparr>)"
    by (simp add: same_but_address_def)
  from operation_toggle_clock_same [OF op1 op1' eq this] assms(3)
  show ?thesis unfolding f1 g1 by (simp add: same_but_address_def)
qed

lemma perform_user_operation_same:
  assumes "perform_user_operation ia op f = Returned f1"
    and "perform_user_operation ia' op g = Returned g1"
    and "same_but_address f g"
  shows "same_but_address f1 g1"
  using assms
  by (cases op)
    (auto simp add: wait_for_write_complete_def
      dest: toggle_chip_enable_same toggle_serial_input_same toggle_clock_same)

lemma perform_all_same:
  assumes "perform_all ia ops f = Returned f1"
    and "perform_all ia' ops g = Returned g1"
    and "same_but_address f g"
  shows "same_but_address f1 g1"
  using assms
proof (induction ops arbitrary: f g)
  case Nil
  then show ?case by simp
next
  case (Cons op ops)
  from Cons.prems(1) obtain f2 where
    f2: "perform_user_operation ia op f = Returned f2" and
    f1: "perform_all ia ops f2 = Returned f1"
    by (auto split: outcome.splits)
  from Cons.prems(2) obtain g2 where
    g2: "perform_user_operation ia' op g = Returned g2" and
    g1: "perform_all ia' ops g2 = Returned g1"
    by (auto split: outcome.splits)
  from perform_user_operation_same [OF f2 g2 Cons.prems(3)]
  have "same_but_address f2 g2" .
  from Cons.IH [OF f1 g1 this] show ?case .
qed

text \<open>
  What does hold of a replay. When a sequence of user operations performed on a newly
  constructed chip returns at every call, performing the entries of the resulting log on a
  second chip of the same size, with the same value \<open>ia\<close> in the uninitialised address,
  returns at every call and ends with the same memory array and pins; with any other value
  \<open>ia'\<close>, a replay ends with the same memory array and pins if it returns at every call,
  which it need not do.
\<close>

lemma replay_with_same_address:
  assumes "perform_all ia ops (new_flash_sim num_bytes) = Returned f"
  shows "(\<exists>f'. perform_all ia (get_user_operations f) (new_flash_sim num_bytes) = Returned f'
          \<and> get_data f' = get_data f
          \<and> get_chip_enable f' = get_chip_enable f
          \<and> get_serial_input f' = get_serial_input f
          \<and> get_serial_output f' = get_serial_output f)
       \<and> (\<forall>ia' f'.
            perform_all ia' (get_user_operations f) (new_flash_sim num_bytes) = Returned f'
            \<longrightarrow> get_data f' = get_data f
              \<and> get_chip_enable f' = get_chip_enable f
              \<and> get_serial_input f' = get_serial_input f
              \<and> get_serial_output f' = get_serial_output f)"
proof -
  from perform_all_log [OF assms]
  have replay: "perform_all ia (get_user_operations f) (new_flash_sim num_bytes) = Returned f"
    by (simp add: get_user_operations_def new_flash_sim_def)
  have other: "get_data f' = get_data f
      \<and> get_chip_enable f' = get_chip_enable f
      \<and> get_serial_input f' = get_serial_input f
      \<and> get_serial_output f' = get_serial_output f"
    if "perform_all ia' (get_user_operations f) (new_flash_sim num_bytes) = Returned f'"
    for ia' f'
  proof -
    have "same_but_address (new_flash_sim num_bytes) (new_flash_sim num_bytes)"
      by (simp add: same_but_address_def)
    from perform_all_same [OF that replay this] show ?thesis
      by (simp add: same_but_address_def get_data_def get_chip_enable_def
          get_serial_input_def get_serial_output_def)
  qed
  from replay other show ?thesis by blast
qed

section \<open>Running the scenarios\<close>

lemma clock_in_data_numeral:
  "clock_in_data ia (numeral k) d f =
     (let bit_set = bit d (pred_numeral k);
          current_state = get_serial_input f;
          r = (if (bit_set \<and> current_state = Low) \<or> (\<not> bit_set \<and> current_state = High)
               then toggle_serial_input f else Returned f)
      in case r of
           Returned f1 \<Rightarrow>
             (case toggle_clock ia f1 of
                Returned f2 \<Rightarrow> clock_in_data ia (pred_numeral k) d f2
              | Threw e f2 \<Rightarrow> Threw e f2
              | Undefined \<Rightarrow> Undefined)
         | Threw e f1 \<Rightarrow> Threw e f1
         | Undefined \<Rightarrow> Undefined)"
  by (simp add: numeral_eq_Suc)

lemma clock_out_loop_numeral:
  "clock_out_loop ia (numeral k) v f =
     (let v1 = (if get_serial_output f = High then v OR push_bit (pred_numeral k) 1 else v)
      in case toggle_clock ia f of
           Returned f1 \<Rightarrow> clock_out_loop ia (pred_numeral k) v1 f1
         | Threw e f1 \<Rightarrow> Threw e (v1, f1)
         | Undefined \<Rightarrow> Undefined)"
  by (simp add: numeral_eq_Suc)

lemmas run_simps = toggle_chip_enable_def toggle_clock_def toggle_serial_input_def
  wait_for_write_complete_def
  operation_map_def new_write_operation_def new_operation_with_address_def
  get_serial_input_def get_serial_output_def input_bit_def byte_shift_left_def
  clock_address_def write_toggle_clock_impl_def write_toggle_chip_enable_impl_def
  address_def clock_in_data_numeral clock_out_data_def clock_out_loop_numeral
  new_flash_sim_def bit_Suc_0_iff log_of_def
  scenario_A_def scenario_B_def scenario_C_def scenario_D_def page_write_def read_start_def

lemma sequence_append:
  "sequence (calls @ rest) f =
     (case sequence calls f of
        Returned f' \<Rightarrow> sequence rest f'
      | Threw e f' \<Rightarrow> Threw e f'
      | Undefined \<Rightarrow> Undefined)"
  by (induction calls arbitrary: f) (auto split: outcome.splits)

lemma buffer_one_byte:
  "(replicate 256 (0::8 word))[0 := a] = a # replicate 255 0"
proof -
  have "replicate 256 (0::8 word) = replicate (1 + 255) 0" by simp
  also have "\<dots> = replicate 1 0 @ replicate 255 0" by (rule replicate_add)
  finally show ?thesis by simp
qed

lemma buffer_three_bytes:
  "(replicate 256 (0::8 word))[0 := a, Suc 0 := b, Suc (Suc 0) := c]
     = a # b # c # replicate 253 0"
proof -
  have "replicate 256 (0::8 word) = replicate (3 + 253) 0" by simp
  also have "\<dots> = replicate 3 0 @ replicate 253 0" by (rule replicate_add)
  finally show ?thesis by (simp add: numeral_3_eq_3)
qed

lemma write_enable_opcode_result:
  "sequence [toggle_chip_enable, clock_in_data 0 8 0x06] (new_flash_sim 4096)
     = Returned chip_in_write_enable"
  by (simp add: run_simps chip_in_write_enable_def)

lemma scenario_C_result:
  "sequence (scenario_A 0 @ scenario_B 0 @ scenario_C 0) (new_flash_sim 4096)
     = Returned chip_after_scenario_C"
  by (simp add: run_simps chip_after_scenario_C_def buffer_three_bytes)

lemma short_address_write_result:
  "sequence (scenario_A 0 @ scenario_B 0 @ scenario_A 0 @ page_write 0 12 0x010 0xAB)
     (new_flash_sim 4096)
     = Returned chip_after_short_address_write"
  by (simp add: run_simps chip_after_short_address_write_def buffer_one_byte)

lemma scenario_D_result:
  "sequence (scenario_D 0) chip_after_scenario_C = Returned chip_after_scenario_D"
  by (simp add: run_simps chip_after_scenario_C_def chip_after_scenario_D_def)

lemma read_erased_result:
  "sequence (scenario_A 0 @ scenario_B 0 @ read_start 0 12 0x000) (new_flash_sim 4096)
     = Returned chip_reading_erased"
  by (simp add: run_simps chip_reading_erased_def)

section \<open>The scenarios of the page write and of the read\<close>

text \<open>
  C1, evaluated on the code. Scenario C after scenarios A and B on a new chip of 4096 bytes
  (uninitialised address 0): the command returns and clears the write enable flag, but the
  byte at 0x10 is still 0xFF. The address is complete after 12 bits, the other 12 bits of
  the address and the data byte fill the buffer with 0x01, 0x0A, 0xB0, and the whole buffer
  of 256 bytes is copied to the bytes 256 to 511. With the address clocked in as 12 bits the
  data byte 0xAB reaches the buffer, and lands at byte 256, not at 0x10.
\<close>

theorem scenario_C_leaves_target_byte:
  "sequence (scenario_A 0 @ scenario_B 0 @ scenario_C 0) (new_flash_sim 4096)
     = Returned chip_after_scenario_C
   \<and> get_data chip_after_scenario_C ! 0x10 = 0xff
   \<and> get_data chip_after_scenario_C ! 256 = 0x01
   \<and> get_data chip_after_scenario_C ! 257 = 0x0a
   \<and> get_data chip_after_scenario_C ! 258 = 0xb0
   \<and> get_data chip_after_scenario_C ! 259 = 0x00
   \<and> \<not> write_enabled chip_after_scenario_C
   \<and> sequence (scenario_A 0 @ scenario_B 0 @ scenario_A 0 @ page_write 0 12 0x010 0xAB)
         (new_flash_sim 4096)
     = Returned chip_after_short_address_write
   \<and> get_data chip_after_short_address_write ! 0x10 = 0xff
   \<and> get_data chip_after_short_address_write ! 256 = 0xab
   \<and> get_data chip_after_short_address_write ! 257 = 0x00"
proof -
  have "get_data chip_after_scenario_C ! 0x10 = 0xff"
    and "get_data chip_after_scenario_C ! 256 = 0x01"
    and "get_data chip_after_scenario_C ! 257 = 0x0a"
    and "get_data chip_after_scenario_C ! 258 = 0xb0"
    and "get_data chip_after_scenario_C ! 259 = 0x00"
    by (simp_all add: get_data_def chip_after_scenario_C_def new_flash_sim_def nth_append)
  moreover have "get_data chip_after_short_address_write ! 0x10 = 0xff"
    and "get_data chip_after_short_address_write ! 256 = 0xab"
    and "get_data chip_after_short_address_write ! 257 = 0x00"
    by (simp_all add: get_data_def chip_after_short_address_write_def new_flash_sim_def
        nth_append)
  moreover have "\<not> write_enabled chip_after_scenario_C"
    by (simp add: chip_after_scenario_C_def new_flash_sim_def)
  ultimately show ?thesis
    using scenario_C_result short_address_write_result by simp
qed

text \<open>
  C2, evaluated on the code. Scenario D after scenario C: the eight clock toggles of
  \<^verbatim>\<open>clock_out_data<8>\<close> return, the serial output pin stays low and the value read is
  0x00, while the memory array holds 0xFF at 0x10. The same on an erased chip read from
  address 0 clocked in as 12 bits: every byte is 0xFF, the value read is 0x00.
\<close>

theorem scenario_D_reads_zero:
  "sequence (scenario_A 0 @ scenario_B 0 @ scenario_C 0 @ scenario_D 0) (new_flash_sim 4096)
     = Returned chip_after_scenario_D
   \<and> get_data chip_after_scenario_D ! 0x10 = 0xff
   \<and> clock_out_data 0 8 chip_after_scenario_D
     = Returned (0x00, chip_after_scenario_D
         \<lparr>user_operations := user_operations chip_after_scenario_D @ log_of ''cccccccc''\<rparr>)
   \<and> get_serial_output chip_after_scenario_D = Low
   \<and> sequence (scenario_A 0 @ scenario_B 0 @ read_start 0 12 0x000) (new_flash_sim 4096)
     = Returned chip_reading_erased
   \<and> get_data chip_reading_erased ! 0x000 = 0xff
   \<and> clock_out_data 0 8 chip_reading_erased
     = Returned (0x00, chip_reading_erased
         \<lparr>user_operations := user_operations chip_reading_erased @ log_of ''cccccccc''\<rparr>)"
proof -
  have "sequence ((scenario_A 0 @ scenario_B 0 @ scenario_C 0) @ scenario_D 0)
          (new_flash_sim 4096) = Returned chip_after_scenario_D"
    unfolding sequence_append [of "scenario_A 0 @ scenario_B 0 @ scenario_C 0"]
    by (simp add: scenario_C_result scenario_D_result)
  then have run: "sequence (scenario_A 0 @ scenario_B 0 @ scenario_C 0 @ scenario_D 0)
          (new_flash_sim 4096) = Returned chip_after_scenario_D"
    by simp
  have mem: "get_data chip_after_scenario_D ! 0x10 = 0xff"
    "get_data chip_reading_erased ! 0x000 = 0xff"
    by (simp_all add: get_data_def chip_after_scenario_D_def chip_after_scenario_C_def
        chip_reading_erased_def new_flash_sim_def nth_append)
  have out: "clock_out_data 0 8 chip_after_scenario_D
     = Returned (0x00, chip_after_scenario_D
         \<lparr>user_operations := user_operations chip_after_scenario_D @ log_of ''cccccccc''\<rparr>)"
    by (simp add: run_simps chip_after_scenario_D_def chip_after_scenario_C_def)
  have out': "clock_out_data 0 8 chip_reading_erased
     = Returned (0x00, chip_reading_erased
         \<lparr>user_operations := user_operations chip_reading_erased @ log_of ''cccccccc''\<rparr>)"
    by (simp add: run_simps chip_reading_erased_def)
  have pin: "get_serial_output chip_after_scenario_D = Low"
    by (simp add: get_serial_output_def chip_after_scenario_D_def chip_after_scenario_C_def
        new_flash_sim_def)
  from run mem out out' pin read_erased_result show ?thesis by simp
qed

text \<open>
  C7, evaluated on the code. On a new chip of 4096 bytes, write enable, chip erase, write
  enable and a page write of 0xAB (address 0x010 clocked in as 12 bits) return at every
  call when the uninitialised \<^verbatim>\<open>_address\<close> of the page write holds 0. The run constructs one
  address operation, so one value stands for all it reads. Replaying the log entry by entry
  on a second new chip of 4096 bytes reproduces the chip when that member holds 0 again.
  When it holds 0xFFFFFFFF the clock toggle for the first data bit throws: the address is
  the clocked-in bits or-ed onto what the member held, and
  \<^verbatim>\<open>_data.at(address() + byte_index)\<close> is out of range. The replay stops there, in the
  operation state, with byte 256 of the memory array still 0xFF where the first chip has
  0xAB.
\<close>

theorem replay_with_other_address_throws:
  "sequence (scenario_A 0 @ scenario_B 0 @ scenario_A 0 @ page_write 0 12 0x010 0xAB)
     (new_flash_sim 4096)
     = Returned chip_after_short_address_write
   \<and> get_user_operations chip_after_short_address_write
     = log_of (''ecccccicciceecicciccccceeccccciccice'' @
               ''eccccccicicccccccciciccccicicicicicicicce'')
   \<and> perform_all 0 (get_user_operations chip_after_short_address_write) (new_flash_sim 4096)
     = Returned chip_after_short_address_write
   \<and> perform_all 0xffffffff (get_user_operations chip_after_short_address_write)
         (new_flash_sim 4096)
     = Threw DataOutOfRange chip_replay_out_of_range
   \<and> get_data chip_after_short_address_write ! 256 = 0xab
   \<and> get_data chip_replay_out_of_range ! 256 = 0xff
   \<and> get_serial_input chip_replay_out_of_range = High
   \<and> get_chip_state chip_replay_out_of_range = Operation"
proof -
  have l: "get_user_operations chip_after_short_address_write
     = log_of (''ecccccicciceecicciccccceeccccciccice'' @
               ''eccccccicicccccccciciccccicicicicicicicce'')"
    by (simp add: get_user_operations_def chip_after_short_address_write_def)
  have same: "perform_all 0 (log_of (''ecccccicciceecicciccccceeccccciccice'' @
               ''eccccccicicccccccciciccccicicicicicicicce'')) (new_flash_sim 4096)
     = Returned chip_after_short_address_write"
    by (simp add: run_simps chip_after_short_address_write_def buffer_one_byte)
  have other: "perform_all 0xffffffff (log_of (''ecccccicciceecicciccccceeccccciccice'' @
               ''eccccccicicccccccciciccccicicicicicicicce'')) (new_flash_sim 4096)
     = Threw DataOutOfRange chip_replay_out_of_range"
    by (simp add: run_simps chip_replay_out_of_range_def)
  have mem: "get_data chip_after_short_address_write ! 256 = 0xab"
    "get_data chip_replay_out_of_range ! 256 = 0xff"
    by (simp_all add: get_data_def chip_after_short_address_write_def
        chip_replay_out_of_range_def new_flash_sim_def nth_append)
  have pins: "get_serial_input chip_replay_out_of_range = High"
    "get_chip_state chip_replay_out_of_range = Operation"
    by (simp_all add: get_serial_input_def get_chip_state_def chip_replay_out_of_range_def
        new_flash_sim_def)
  from short_address_write_result l same other mem pins show ?thesis by simp
qed

section \<open>Concrete failing calls\<close>

text \<open>
  C3, as the claim states it, fails. On a new chip of 4096 bytes, after a chip-enable toggle
  and the opcode 0x06, the chip is in the operation state with a write enable operation; a
  clock toggle then throws, and the chip after the throw is not the chip before it: the
  token of the failed call has been appended to the log.
\<close>

theorem failed_clock_toggle_is_logged:
  "sequence [toggle_chip_enable, clock_in_data 0 8 0x06] (new_flash_sim 4096)
     = Returned chip_in_write_enable
   \<and> perform_user_operation 0 ToggleClock chip_in_write_enable
     = Threw ClockNotApplicable
         (chip_in_write_enable\<lparr>user_operations := log_of ''eccccciccicc''\<rparr>)
   \<and> chip_in_write_enable\<lparr>user_operations := log_of ''eccccciccicc''\<rparr>
     \<noteq> chip_in_write_enable
   \<and> get_user_operations (chip_in_write_enable\<lparr>user_operations := log_of ''eccccciccicc''\<rparr>)
     = get_user_operations chip_in_write_enable @ [ToggleClock]"
proof -
  have "perform_user_operation 0 ToggleClock chip_in_write_enable
     = Threw ClockNotApplicable
         (chip_in_write_enable\<lparr>user_operations := log_of ''eccccciccicc''\<rparr>)"
    by (simp add: run_simps chip_in_write_enable_def)
  moreover have "user_operations (chip_in_write_enable\<lparr>user_operations := log_of ''eccccciccicc''\<rparr>)
     = user_operations chip_in_write_enable @ [ToggleClock]"
    by (simp add: chip_in_write_enable_def log_of_def)
  moreover from this
  have "chip_in_write_enable\<lparr>user_operations := log_of ''eccccciccicc''\<rparr>
     \<noteq> chip_in_write_enable"
    by (metis append_self_conv not_Cons_self2)
  ultimately show ?thesis
    using write_enable_opcode_result by (simp add: get_user_operations_def)
qed

theorem failed_toggle_keeps_memory_and_pins_witness:
  "perform_user_operation 0 ToggleClock chip_in_write_enable
     = Threw ClockNotApplicable
         (chip_in_write_enable\<lparr>user_operations := log_of ''eccccciccicc''\<rparr>)
   \<and> ClockNotApplicable \<notin> {InvalidTransition, NoOperation}
   \<and> get_chip_state chip_in_write_enable = Operation
   \<and> get_data (chip_in_write_enable\<lparr>user_operations := log_of ''eccccciccicc''\<rparr>)
     = get_data chip_in_write_enable
   \<and> chip_in_write_enable\<lparr>user_operations := log_of ''eccccciccicc''\<rparr>
     = chip_in_write_enable
         \<lparr>user_operations := user_operations chip_in_write_enable @ [ToggleClock]\<rparr>
   \<and> perform_user_operation 0 ToggleSerialInput (new_flash_sim 4096)
     = Threw InvalidTransition (new_flash_sim 4096)
   \<and> InvalidTransition \<in> {InvalidTransition, NoOperation}"
proof -
  have h: "perform_user_operation 0 ToggleClock chip_in_write_enable
     = Threw ClockNotApplicable
         (chip_in_write_enable\<lparr>user_operations := log_of ''eccccciccicc''\<rparr>)"
    by (simp add: run_simps chip_in_write_enable_def)
  have s: "get_chip_state chip_in_write_enable = Operation"
    by (simp add: get_chip_state_def chip_in_write_enable_def new_flash_sim_def)
  have h': "perform_user_operation 0 ToggleSerialInput (new_flash_sim 4096)
     = Threw InvalidTransition (new_flash_sim 4096)"
    by (simp add: run_simps)
  note t = failed_toggle_keeps_memory_and_pins [OF h]
  from t have d: "get_data (chip_in_write_enable\<lparr>user_operations := log_of ''eccccciccicc''\<rparr>)
     = get_data chip_in_write_enable"
    by (elim conjE)
  from t have "get_chip_state chip_in_write_enable = Operation \<longrightarrow>
      chip_in_write_enable\<lparr>user_operations := log_of ''eccccciccicc''\<rparr>
     = chip_in_write_enable
         \<lparr>user_operations := user_operations chip_in_write_enable @ [ToggleClock]\<rparr>"
    by simp
  with s have u: "chip_in_write_enable\<lparr>user_operations := log_of ''eccccciccicc''\<rparr>
     = chip_in_write_enable
         \<lparr>user_operations := user_operations chip_in_write_enable @ [ToggleClock]\<rparr>"
    by (rule rev_mp)
  show ?thesis
    apply (intro conjI)
          apply (rule h)
         apply simp
        apply (rule s)
       apply (rule d)
      apply (rule u)
     apply (rule h')
    apply simp
    done
qed

text \<open>
  C4, as the claim states it, fails. On a new chip of 4096 bytes, after a chip-enable toggle
  and the opcode 0xFF, the last clock toggle throws for the unknown opcode and leaves the
  chip in the command state; the chip-enable toggle after that throws too, and the chip is
  still in the command state, not deselected.
\<close>

theorem chip_enable_after_unknown_opcode_fails:
  "sequence [toggle_chip_enable, clock_in_data 0 8 0xFF] (new_flash_sim 4096)
     = Threw UnknownOpcode chip_after_opcode_ff
   \<and> get_chip_state chip_after_opcode_ff = Command
   \<and> toggle_chip_enable chip_after_opcode_ff = Threw InvalidTransition chip_after_opcode_ff
   \<and> get_chip_state chip_after_opcode_ff \<noteq> Deselected"
  by (simp add: run_simps chip_after_opcode_ff_def get_chip_state_def)

theorem unknown_opcode_stays_in_command_witness:
  "sequence [toggle_chip_enable, clock_in_data 0 7 0x7F] (new_flash_sim 4096)
     = Returned chip_before_opcode_ff
   \<and> chip_state chip_before_opcode_ff = Command \<and> bit_index chip_before_opcode_ff = 1
   \<and> instruction_register chip_before_opcode_ff
       OR byte_shift_left (input_bit chip_before_opcode_ff) 0 = 0xff
   \<and> toggle_clock 0 chip_before_opcode_ff = Threw UnknownOpcode chip_after_opcode_ff
   \<and> get_chip_state chip_after_opcode_ff = Command
   \<and> toggle_chip_enable chip_after_opcode_ff = Threw InvalidTransition chip_after_opcode_ff"
proof -
  have r: "sequence [toggle_chip_enable, clock_in_data 0 7 0x7F] (new_flash_sim 4096)
     = Returned chip_before_opcode_ff"
    by (simp add: run_simps chip_before_opcode_ff_def)
  have 1: "chip_state chip_before_opcode_ff = Command"
    and 2: "bit_index chip_before_opcode_ff = 1"
    and 3: "instruction_register chip_before_opcode_ff
       OR byte_shift_left (input_bit chip_before_opcode_ff) 0 = 0xff"
    by (simp_all add: chip_before_opcode_ff_def new_flash_sim_def input_bit_def
        byte_shift_left_def)
  from 3 have 4: "instruction_register chip_before_opcode_ff
       OR byte_shift_left (input_bit chip_before_opcode_ff) 0 \<notin> {0x02, 0x03, 0x06, 0x60}"
    by simp
  have 5: "chip_after_opcode_ff = chip_before_opcode_ff
       \<lparr>user_operations := user_operations chip_before_opcode_ff @ [ToggleClock],
        instruction_register :=
          instruction_register chip_before_opcode_ff
          OR byte_shift_left (input_bit chip_before_opcode_ff) 0,
        bit_index := 0\<rparr>"
    unfolding 3
    by (simp add: chip_before_opcode_ff_def chip_after_opcode_ff_def new_flash_sim_def
        log_of_def)
  from unknown_opcode_stays_in_command [OF 1 2 4 5, of 0] r 1 2 3 show ?thesis by simp
qed

section \<open>Concrete chips for the other theorems\<close>

theorem write_and_erase_need_write_enable_witness:
  "sequence [toggle_chip_enable, clock_in_data 0 7 0x01, toggle_serial_input]
     (new_flash_sim 4096) = Returned chip_before_opcode_02
   \<and> chip_state chip_before_opcode_02 = Command \<and> bit_index chip_before_opcode_02 = 1
   \<and> \<not> write_enabled chip_before_opcode_02
   \<and> instruction_register chip_before_opcode_02
       OR byte_shift_left (input_bit chip_before_opcode_02) 0 = 0x02
   \<and> toggle_clock 0 chip_before_opcode_02
     = Threw WriteEnableRequired
         (chip_before_opcode_02
            \<lparr>user_operations := log_of ''eccccccicic'', bit_index := 0\<rparr>)
   \<and> get_data (chip_before_opcode_02
                  \<lparr>user_operations := log_of ''eccccccicic'', bit_index := 0\<rparr>)
     = get_data chip_before_opcode_02
   \<and> sequence [toggle_chip_enable, clock_in_data 0 7 0x30] (new_flash_sim 4096)
     = Returned chip_before_opcode_60
   \<and> instruction_register chip_before_opcode_60
       OR byte_shift_left (input_bit chip_before_opcode_60) 0 = 0x60
   \<and> toggle_clock 0 chip_before_opcode_60
     = Threw WriteEnableRequired
         (chip_before_opcode_60
            \<lparr>user_operations := log_of ''ecicciccccc'', bit_index := 0\<rparr>)"
proof -
  have r2: "sequence [toggle_chip_enable, clock_in_data 0 7 0x01, toggle_serial_input]
     (new_flash_sim 4096) = Returned chip_before_opcode_02"
    by (simp add: run_simps chip_before_opcode_02_def)
  have r6: "sequence [toggle_chip_enable, clock_in_data 0 7 0x30] (new_flash_sim 4096)
     = Returned chip_before_opcode_60"
    by (simp add: run_simps chip_before_opcode_60_def)
  have a2: "chip_state chip_before_opcode_02 = Command"
    and b2: "bit_index chip_before_opcode_02 = 1"
    and c2: "\<not> write_enabled chip_before_opcode_02"
    and d2: "instruction_register chip_before_opcode_02
       OR byte_shift_left (input_bit chip_before_opcode_02) 0 = 0x02"
    by (simp_all add: chip_before_opcode_02_def new_flash_sim_def input_bit_def
        byte_shift_left_def)
  have a6: "chip_state chip_before_opcode_60 = Command"
    and b6: "bit_index chip_before_opcode_60 = 1"
    and c6: "\<not> write_enabled chip_before_opcode_60"
    and d6: "instruction_register chip_before_opcode_60
       OR byte_shift_left (input_bit chip_before_opcode_60) 0 = 0x60"
    by (simp_all add: chip_before_opcode_60_def new_flash_sim_def input_bit_def
        byte_shift_left_def)
  have e2: "chip_before_opcode_02\<lparr>user_operations := log_of ''eccccccicic'', bit_index := 0\<rparr>
     = chip_before_opcode_02
         \<lparr>user_operations := user_operations chip_before_opcode_02 @ [ToggleClock],
          instruction_register :=
            instruction_register chip_before_opcode_02
            OR byte_shift_left (input_bit chip_before_opcode_02) 0,
          bit_index := 0\<rparr>"
    unfolding d2 by (simp add: chip_before_opcode_02_def new_flash_sim_def log_of_def)
  have e6: "chip_before_opcode_60\<lparr>user_operations := log_of ''ecicciccccc'', bit_index := 0\<rparr>
     = chip_before_opcode_60
         \<lparr>user_operations := user_operations chip_before_opcode_60 @ [ToggleClock],
          instruction_register :=
            instruction_register chip_before_opcode_60
            OR byte_shift_left (input_bit chip_before_opcode_60) 0,
          bit_index := 0\<rparr>"
    unfolding d6 by (simp add: chip_before_opcode_60_def new_flash_sim_def log_of_def)
  note t2 = write_and_erase_need_write_enable [OF a2 b2 c2 disjI1 [OF d2] e2, of 0]
  note t6 = write_and_erase_need_write_enable [OF a6 b6 c6 disjI2 [OF d6] e6, of 0]
  show ?thesis
    apply (intro conjI)
             apply (rule r2)
            apply (rule a2)
           apply (rule b2)
          apply (rule c2)
         apply (rule d2)
        apply (rule t2 [THEN conjunct1])
       apply (rule t2 [THEN conjunct2])
      apply (rule r6)
     apply (rule d6)
    apply (rule t6 [THEN conjunct1])
    done
qed

theorem write_checks_first_bit_only_witness:
  "sequence (scenario_A 0 @ [toggle_chip_enable, clock_in_data 0 8 0x02,
       clock_in_data 0 12 0x010]) (new_flash_sim 4096)
     = Returned chip_writing_unerased
   \<and> data chip_writing_unerased ! 0x010 \<noteq> 0xff
   \<and> toggle_clock 0 chip_writing_unerased
     = Threw NonErasedByteWrite
         (chip_writing_unerased
            \<lparr>user_operations := user_operations chip_writing_unerased @ [ToggleClock]\<rparr>)
   \<and> toggle_clock 0 (chip_writing_unerased\<lparr>serial_input := High\<rparr>)
     = Threw NonErasedByteWrite
         (chip_writing_unerased
            \<lparr>serial_input := High,
             user_operations := user_operations chip_writing_unerased @ [ToggleClock]\<rparr>)
   \<and> sequence (scenario_A 0 @ scenario_B 0 @ scenario_A 0
         @ [toggle_chip_enable, clock_in_data 0 8 0x02, clock_in_data 0 12 0x010,
            clock_in_data 0 1 1]) (new_flash_sim 4096)
     = Returned chip_writing_second_bit
   \<and> (\<exists>f'. toggle_clock 0 chip_writing_second_bit = Returned f')
   \<and> (\<exists>f'. toggle_clock 0 (chip_writing_second_bit\<lparr>data := replicate 4096 0\<rparr>)
            = Returned f')"
proof -
  let ?a = "\<lparr>address_bits = 0x10, address_bit_index = 0\<rparr>"
  let ?w = "\<lparr>write_buffer = replicate 256 0, current_byte = 0, write_bit_index = 8\<rparr>"
  let ?w7 = "\<lparr>write_buffer = (replicate 256 0)[0 := 0x80], current_byte = 0,
             write_bit_index = 7\<rparr>"
  have r: "sequence (scenario_A 0 @ [toggle_chip_enable, clock_in_data 0 8 0x02,
       clock_in_data 0 12 0x010]) (new_flash_sim 4096) = Returned chip_writing_unerased"
    by (simp add: run_simps chip_writing_unerased_def)
  have r7: "sequence (scenario_A 0 @ scenario_B 0 @ scenario_A 0
         @ [toggle_chip_enable, clock_in_data 0 8 0x02, clock_in_data 0 12 0x010,
            clock_in_data 0 1 1]) (new_flash_sim 4096)
     = Returned chip_writing_second_bit"
    by (simp add: run_simps chip_writing_second_bit_def)
  have m: "data chip_writing_unerased ! 0x010 \<noteq> 0xff"
    by (simp add: chip_writing_unerased_def new_flash_sim_def)
  have s: "chip_state chip_writing_unerased = Operation"
    "operation chip_writing_unerased = Some (WriteOperation ?a ?w)"
    "chip_state (chip_writing_unerased\<lparr>serial_input := High\<rparr>) = Operation"
    "operation (chip_writing_unerased\<lparr>serial_input := High\<rparr>) = Some (WriteOperation ?a ?w)"
    by (simp_all add: chip_writing_unerased_def new_flash_sim_def)
  have s7: "chip_state chip_writing_second_bit = Operation"
    "operation chip_writing_second_bit = Some (WriteOperation ?a ?w7)"
    "chip_state (chip_writing_second_bit\<lparr>data := replicate 4096 0\<rparr>) = Operation"
    "operation (chip_writing_second_bit\<lparr>data := replicate 4096 0\<rparr>)
       = Some (WriteOperation ?a ?w7)"
    by (simp_all add: chip_writing_second_bit_def new_flash_sim_def)
  have a: "address_bit_index ?a = 0" by simp
  have b: "current_byte ?w < length (write_buffer ?w)"
    "current_byte ?w7 < length (write_buffer ?w7)"
    by simp_all
  have first: "write_bit_index ?w = 8
      \<and> unat (address_bits ?a) + current_byte ?w < length (data chip_writing_unerased)
      \<and> data chip_writing_unerased ! (unat (address_bits ?a) + current_byte ?w) \<noteq> 0xff"
    "write_bit_index ?w = 8
      \<and> unat (address_bits ?a) + current_byte ?w
          < length (data (chip_writing_unerased\<lparr>serial_input := High\<rparr>))
      \<and> data (chip_writing_unerased\<lparr>serial_input := High\<rparr>)
          ! (unat (address_bits ?a) + current_byte ?w) \<noteq> 0xff"
    by (simp_all add: chip_writing_unerased_def new_flash_sim_def)
  have later: "write_bit_index ?w7 \<in> {1, 2, 3, 4, 5, 6, 7}" by simp
  note t = write_checks_first_bit_only [OF s(1) s(2) a b(1), of 0]
  note t' = write_checks_first_bit_only [OF s(3) s(4) a b(1), of 0]
  note t7 = write_checks_first_bit_only [OF s7(1) s7(2) a b(2), of 0]
  note t7' = write_checks_first_bit_only [OF s7(3) s7(4) a b(2), of 0]
  have u: "chip_writing_unerased
      \<lparr>serial_input := High,
       user_operations := user_operations chip_writing_unerased @ [ToggleClock]\<rparr>
    = chip_writing_unerased
      \<lparr>serial_input := High\<rparr>
      \<lparr>user_operations :=
         user_operations (chip_writing_unerased\<lparr>serial_input := High\<rparr>) @ [ToggleClock]\<rparr>"
    by simp
  show ?thesis
    apply (intro conjI)
          apply (rule r)
         apply (rule m)
        apply (rule t [THEN conjunct1, THEN mp, OF first(1)])
       apply (subst u)
       apply (rule t' [THEN conjunct1, THEN mp, OF first(2)])
      apply (rule r7)
     apply (rule t7 [THEN conjunct2, THEN mp, OF later])
    apply (rule t7' [THEN conjunct2, THEN mp, OF later])
    done
qed

theorem operation_and_log_present_witness:
  "reachable 4096 chip_in_write_enable
   \<and> get_chip_state chip_in_write_enable = Operation
   \<and> operation chip_in_write_enable \<noteq> None
   \<and> get_user_operations chip_in_write_enable \<noteq> []
   \<and> (\<forall>f'. toggle_chip_enable chip_in_write_enable \<noteq> Threw NoOperation f')
   \<and> (\<forall>ia f'. toggle_clock ia chip_in_write_enable \<noteq> Threw NoOperation f')
   \<and> toggle_serial_input chip_in_write_enable \<noteq> Undefined"
proof -
  have "perform_all 0 (log_of ''eccccciccic'') (new_flash_sim 4096)
     = Returned chip_in_write_enable"
    by (simp add: run_simps chip_in_write_enable_def)
  with reachable.constructed have r: "reachable 4096 chip_in_write_enable"
    by (rule perform_all_reachable)
  have s: "get_chip_state chip_in_write_enable = Operation"
    by (simp add: get_chip_state_def chip_in_write_enable_def new_flash_sim_def)
  from operation_and_log_present [OF r] r s show ?thesis by simp
qed

end
